theory Spec2Isabelle
  imports Main
begin

section \<open>The download-acquisition orchestrator\<close>

text \<open>
  The theory embeds \<^verbatim>\<open>scrape_and_download\<close> and \<^verbatim>\<open>setup_download_handler\<close> of
  \<^verbatim>\<open>src/csv_scraper.py\<close>. The browser, the page and the file system are outside the
  program, so every awaited Playwright call and every file-system call of the body is a
  step whose outcome is read from an environment: it returns, or it raises an exception
  carrying the text that \<^verbatim>\<open>str(e)\<close> yields. The model starts inside the
  \<^verbatim>\<open>async with async_playwright()\<close> block; \<^verbatim>\<open>print\<close>, \<^verbatim>\<open>asyncio.sleep\<close>,
  \<^verbatim>\<open>set_default_timeout\<close> and \<^verbatim>\<open>os.getcwd\<close> are taken to return normally.
  Each function returns the events it issued, in program order, beside its value and the
  file system it leaves.
\<close>

subsection \<open>Data\<close>

datatype py_exception = PyException (message: string)

type_synonym path = string
type_synonym bytes = "char list"

datatype element = ElementHandle nat

datatype browser_kind = Firefox | Webkit | Chromium

text \<open>The outcome of an await that is subject to the \<^verbatim>\<open>asyncio.wait_for\<close> timeout:
  it has not resolved when the timeout expires, it raises, or it returns.\<close>

datatype 'a awaited = Pending | Raises py_exception | Returns 'a

record download =
  suggested_filename :: string
  content :: bytes

text \<open>What the outside world answers during one invocation of \<^verbatim>\<open>scrape_and_download\<close>
  (the number is the source line of the call).\<close>

record attempt_env =
  getcwd :: path                                                   \<comment> \<open>48, 128\<close>
  makedirs_fault :: "py_exception option"                          \<comment> \<open>49\<close>
  launch_fault :: "py_exception option"                            \<comment> \<open>53\<close>
  new_context_fault :: "py_exception option"                       \<comment> \<open>56\<close>
  new_page_fault :: "py_exception option"                          \<comment> \<open>62\<close>
  goto_fault :: "py_exception option"                              \<comment> \<open>69\<close>
  wait_for_selector_out :: "string \<Rightarrow> py_exception + element option"  \<comment> \<open>88, 100\<close>
  load_state_fault :: "py_exception option"                        \<comment> \<open>112\<close>
  click_fault :: "py_exception option"                             \<comment> \<open>119\<close>
  wait_for_event_out :: "download awaited"                         \<comment> \<open>176\<close>
  download_path_out :: "unit awaited"                              \<comment> \<open>179\<close>
  handler_makedirs_fault :: "py_exception option"                  \<comment> \<open>186\<close>
  save_as_out :: "unit awaited"                                    \<comment> \<open>189\<close>
  read_fault :: "py_exception option"                              \<comment> \<open>131\<close>
  open_fault :: "py_exception option"                              \<comment> \<open>134\<close>
  write_fault :: "(py_exception \<times> nat) option"                    \<comment> \<open>135\<close>
  close_fault :: "py_exception option"                             \<comment> \<open>155\<close>

text \<open>The file system: the regular files with their bytes, and the directories.\<close>

record fs =
  files :: "path \<rightharpoonup> bytes"
  dirs :: "path set"

text \<open>The calls of a run, in program order. \<open>Enter h\<close>: the entry point is entered
  with \<^verbatim>\<open>headless = h\<close>. \<open>MakeDirs\<close>: line 49. \<open>Launch\<close> to \<open>Goto\<close>: lines 53 to
  69. \<open>WaitForSelector\<close>: lines 88 and 100. \<open>WaitForLoadState\<close>: line 112.
  \<open>CreateTask\<close>: the handler task is created, line 115. \<open>Click\<close>: line 119.
  \<open>WaitFor\<close>: the task is awaited under the timeout, line 123, and \<open>Captured p\<close>: that
  await returned the path \<open>p\<close>. \<open>OpenRead\<close>, \<open>OpenWrite\<close>: lines 131 and 134.
  \<open>Close h\<close>: line 155, on the browser of the invocation entered with \<open>h\<close>.\<close>

datatype event =
    Enter bool
  | MakeDirs path
  | Launch browser_kind bool
  | NewContext
  | NewPage
  | Goto string
  | WaitForSelector string
  | WaitForLoadState
  | CreateTask
  | Click element
  | WaitFor int
  | Captured path
  | OpenRead path
  | OpenWrite path
  | Close bool

text \<open>How a block of the \<^verbatim>\<open>try\<close> body ends: an exception, a \<^verbatim>\<open>return\<close> statement,
  or control falls through to the next statement with a value.\<close>

datatype 'a step = Raise py_exception | Return "bool \<times> string option" | Next 'a

text \<open>How a call of the entry point ends: an exception leaves it, or it returns its pair.\<close>

datatype outcome = Escaped py_exception | Returned "bool \<times> string option"

subsection \<open>Paths (posixpath)\<close>

text \<open>\<^verbatim>\<open>os.path.join\<close> for two arguments, \<^verbatim>\<open>os.path.basename\<close> and
  \<^verbatim>\<open>os.path.dirname\<close>. The working directory that \<^verbatim>\<open>os.getcwd\<close> returns is
  absolute and normalised, so \<^verbatim>\<open>os.path.abspath\<close> of line 48 leaves the joined path as
  it is.\<close>

definition path_join :: "path \<Rightarrow> path \<Rightarrow> path" where
  "path_join a b =
     (if b \<noteq> [] \<and> hd b = CHR ''/'' then b
      else if a = [] then b
      else if last a = CHR ''/'' then a @ b
      else a @ ''/'' @ b)"

definition basename :: "path \<Rightarrow> path" where
  "basename p = rev (takeWhile (\<lambda>c. c \<noteq> CHR ''/'') (rev p))"

definition dirname :: "path \<Rightarrow> path" where
  "dirname p =
     (let head = rev (dropWhile (\<lambda>c. c \<noteq> CHR ''/'') (rev p))
      in if dropWhile (\<lambda>c. c = CHR ''/'') head = [] then head
         else rev (dropWhile (\<lambda>c. c = CHR ''/'') (rev head)))"

subsection \<open>The steps of one invocation\<close>

definition selectors :: "string list" where
  "selectors =
     [''#download-sheet'',
      ''button#download-sheet'',
      ''button:has-text(\"Download\")'',
      ''button:has-text(\"Export\")'',
      ''a:has-text(\"Download\")'']"

definition xpath_selector :: string where
  "xpath_selector = ''xpath=//*[@id=\"download-sheet\"]''"

text \<open>Lines 53 to 69: launch, context, page, navigation. The first component says whether
  the local variable \<^verbatim>\<open>browser\<close> is bound when the block ends.\<close>

definition open_page ::
  "attempt_env \<Rightarrow> browser_kind \<Rightarrow> string \<Rightarrow> bool \<Rightarrow> bool \<times> py_exception option \<times> event list" where
  "open_page e browser_class url headless =
     (case launch_fault e of
        Some x \<Rightarrow> (False, Some x, [Launch browser_class headless])
      | None \<Rightarrow>
     (case new_context_fault e of
        Some x \<Rightarrow> (True, Some x, [Launch browser_class headless, NewContext])
      | None \<Rightarrow>
     (case new_page_fault e of
        Some x \<Rightarrow> (True, Some x, [Launch browser_class headless, NewContext, NewPage])
      | None \<Rightarrow>
     (case goto_fault e of
        Some x \<Rightarrow> (True, Some x, [Launch browser_class headless, NewContext, NewPage, Goto url])
      | None \<Rightarrow> (True, None, [Launch browser_class headless, NewContext, NewPage, Goto url])))))"

text \<open>Lines 83 to 93: the loop over the selectors. An exception of
  \<^verbatim>\<open>wait_for_selector\<close> is swallowed and the loop continues; a falsy result continues
  too; the first truthy result breaks.\<close>

fun probe_selectors :: "attempt_env \<Rightarrow> string list \<Rightarrow> element option \<times> event list" where
  "probe_selectors e [] = (None, [])"
| "probe_selectors e (s # ss) =
     (case wait_for_selector_out e s of
        Inr (Some el) \<Rightarrow> (Some el, [WaitForSelector s])
      | Inr None \<Rightarrow> (case probe_selectors e ss of (r, evs) \<Rightarrow> (r, WaitForSelector s # evs))
      | Inl x \<Rightarrow> (case probe_selectors e ss of (r, evs) \<Rightarrow> (r, WaitForSelector s # evs)))"

text \<open>Lines 75 to 105: the loop, then the XPath attempt when the loop found nothing.\<close>

definition find_button :: "attempt_env \<Rightarrow> element step \<times> event list" where
  "find_button e =
     (case probe_selectors e selectors of
        (Some el, evs) \<Rightarrow> (Next el, evs)
      | (None, evs) \<Rightarrow>
          (case wait_for_selector_out e xpath_selector of
             Inl x \<Rightarrow> (Return (False, Some ''Download button not found with any selector''),
                       evs @ [WaitForSelector xpath_selector])
           | Inr None \<Rightarrow> (Return (False, Some ''Download button not found''),
                          evs @ [WaitForSelector xpath_selector])
           | Inr (Some el) \<Rightarrow> (Next el, evs @ [WaitForSelector xpath_selector])))"

text \<open>Lines 159 to 191, \<^verbatim>\<open>setup_download_handler\<close>. It runs as a task: program order
  fixes that the task is created at line 115 and awaited at line 123, and the model
  applies its effect on the file system at the await. When the event loop runs the steps
  of the task, and so when the listener of line 176 exists relative to the click of line
  119, is not part of this sequential model: no event stands for the listener.\<close>

definition setup_download_handler :: "attempt_env \<Rightarrow> path \<Rightarrow> fs \<Rightarrow> path awaited \<times> fs" where
  "setup_download_handler e download_path w =
     (case wait_for_event_out e of
        Pending \<Rightarrow> (Pending, w)
      | Raises x \<Rightarrow> (Raises x, w)
      | Returns d \<Rightarrow>
     (case download_path_out e of
        Pending \<Rightarrow> (Pending, w)
      | Raises x \<Rightarrow> (Raises x, w)
      | Returns u \<Rightarrow>
     (let save_path = path_join download_path (suggested_filename d) in
      case handler_makedirs_fault e of
        Some x \<Rightarrow> (Raises x, w)
      | None \<Rightarrow>
     (let w1 = w\<lparr>dirs := insert (dirname save_path) (dirs w)\<rparr> in
      case save_as_out e of
        Pending \<Rightarrow> (Pending, w1)
      | Raises x \<Rightarrow> (Raises x, w1)
      | Returns u \<Rightarrow> (Returns save_path, w1\<lparr>files := (files w1)(save_path \<mapsto> content d)\<rparr>)))))"

text \<open>\<^verbatim>\<open>asyncio.wait_for\<close> raises \<^verbatim>\<open>TimeoutError()\<close>, whose text is empty.\<close>

definition timeout_error :: py_exception where
  "timeout_error = PyException []"

definition file_not_found :: "path \<Rightarrow> py_exception" where
  "file_not_found p = PyException (''[Errno 2] No such file or directory: '' @ p)"

text \<open>Lines 107 to 123: wait for the page, create the handler task, click, await the task
  under the timeout.\<close>

definition capture ::
  "attempt_env \<Rightarrow> path \<Rightarrow> int \<Rightarrow> element \<Rightarrow> fs \<Rightarrow> path step \<times> fs \<times> event list" where
  "capture e downloads_path download_timeout download_button w =
     (case load_state_fault e of
        Some x \<Rightarrow> (Raise x, w, [WaitForLoadState])
      | None \<Rightarrow>
     (case click_fault e of
        Some x \<Rightarrow> (Raise x, w, [WaitForLoadState, CreateTask, Click download_button])
      | None \<Rightarrow>
     (case setup_download_handler e downloads_path w of
        (Pending, w1) \<Rightarrow>
          (Raise timeout_error, w1,
           [WaitForLoadState, CreateTask, Click download_button, WaitFor download_timeout])
      | (Raises x, w1) \<Rightarrow>
          (Raise x, w1,
           [WaitForLoadState, CreateTask, Click download_button, WaitFor download_timeout])
      | (Returns p, w1) \<Rightarrow>
          (Next p, w1,
           [WaitForLoadState, CreateTask, Click download_button, WaitFor download_timeout,
            Captured p]))))"

text \<open>Lines 126 to 138: read the captured file, open the destination for writing (which
  creates or truncates it), write, and read the size back. A write that faults has put
  the first \<open>n\<close> bytes into the file. (Line 145 reads the size once more, only to print
  it.)\<close>

definition materialize :: "attempt_env \<Rightarrow> path \<Rightarrow> fs \<Rightarrow> nat step \<times> fs \<times> event list" where
  "materialize e downloaded_path w =
     (let filename = basename downloaded_path;
          destination = path_join (getcwd e) filename
      in
      case read_fault e of
        Some x \<Rightarrow> (Raise x, w, [OpenRead downloaded_path])
      | None \<Rightarrow>
     (case files w downloaded_path of
        None \<Rightarrow> (Raise (file_not_found downloaded_path), w, [OpenRead downloaded_path])
      | Some c \<Rightarrow>
     (case open_fault e of
        Some x \<Rightarrow> (Raise x, w, [OpenRead downloaded_path, OpenWrite destination])
      | None \<Rightarrow>
     (case write_fault e of
        Some (x, n) \<Rightarrow>
          (Raise x, w\<lparr>files := (files w)(destination \<mapsto> take n c)\<rparr>,
           [OpenRead downloaded_path, OpenWrite destination])
      | None \<Rightarrow>
     (let w2 = w\<lparr>files := (files w)(destination \<mapsto> c)\<rparr> in
      case files w2 destination of
        None \<Rightarrow> (Raise (file_not_found destination), w2,
                  [OpenRead downloaded_path, OpenWrite destination])
      | Some c' \<Rightarrow> (Next (length c'), w2,
                     [OpenRead downloaded_path, OpenWrite destination]))))))"

text \<open>Lines 53 to 138, the \<^verbatim>\<open>try\<close> body up to the size test. It yields whether
  \<^verbatim>\<open>browser\<close> is bound, how the block ended (\<open>Next n\<close>: line 139 is reached with
  \<^verbatim>\<open>file_size = n\<close>), the file system and the events.\<close>

definition attempt_body ::
  "attempt_env \<Rightarrow> browser_kind \<Rightarrow> string \<Rightarrow> int \<Rightarrow> bool \<Rightarrow> path \<Rightarrow> fs
     \<Rightarrow> bool \<times> nat step \<times> fs \<times> event list" where
  "attempt_body e browser_class url download_timeout headless downloads_path w =
     (case open_page e browser_class url headless of
        (bound, Some x, evs0) \<Rightarrow> (bound, Raise x, w, evs0)
      | (bound, None, evs0) \<Rightarrow>
     (case find_button e of
        (Raise x, evs1) \<Rightarrow> (bound, Raise x, w, evs0 @ evs1)
      | (Return v, evs1) \<Rightarrow> (bound, Return v, w, evs0 @ evs1)
      | (Next download_button, evs1) \<Rightarrow>
     (case capture e downloads_path download_timeout download_button w of
        (Raise x, w1, evs2) \<Rightarrow> (bound, Raise x, w1, evs0 @ evs1 @ evs2)
      | (Return v, w1, evs2) \<Rightarrow> (bound, Return v, w1, evs0 @ evs1 @ evs2)
      | (Next downloaded_path, w1, evs2) \<Rightarrow>
          (if downloaded_path \<noteq> [] then
             (case materialize e downloaded_path w1 of
                (r, w2, evs3) \<Rightarrow> (bound, r, w2, evs0 @ evs1 @ evs2 @ evs3))
           else (bound, Return (False, Some ''Download failed or timed out''), w1,
                 evs0 @ evs1 @ evs2)))))"

text \<open>Lines 153 to 157: \<^verbatim>\<open>browser.close()\<close> under its own \<^verbatim>\<open>try\<close>. With
  \<^verbatim>\<open>browser\<close> unbound the name lookup raises before anything is called; every
  exception is swallowed.\<close>

definition close_browser :: "attempt_env \<Rightarrow> bool \<Rightarrow> bool \<Rightarrow> event list" where
  "close_browser e bound headless =
     (if bound then (case close_fault e of Some x \<Rightarrow> [Close headless] | None \<Rightarrow> [Close headless])
      else [])"

definition browser_class_of :: "string \<Rightarrow> browser_kind" where
  "browser_class_of browser_type =
     (if browser_type = ''firefox'' then Firefox
      else if browser_type = ''webkit'' then Webkit
      else Chromium)"

definition error_result :: "py_exception \<Rightarrow> bool \<times> string option" where
  "error_result x = (False, Some (''Error: '' @ message x))"

subsection \<open>The entry point\<close>

text \<open>\<^verbatim>\<open>scrape_and_download\<close>, lines 13 to 157. The environment is indexed by the
  \<^verbatim>\<open>headless\<close> argument of the invocation that consults it, so the retry may be
  answered differently from the first invocation. The recursive call of
  line 143 stands inside the \<^verbatim>\<open>try\<close>: an exception leaving it is caught at line
  150, and the \<^verbatim>\<open>finally\<close> of the outer invocation runs after the inner one is
  over.\<close>

function scrape_and_download ::
  "(bool \<Rightarrow> attempt_env) \<Rightarrow> string \<Rightarrow> string \<Rightarrow> int \<Rightarrow> bool \<Rightarrow> fs
     \<Rightarrow> outcome \<times> fs \<times> event list" where
  "scrape_and_download env url browser_type download_timeout headless w =
     (let e = env headless;
          browser_class = browser_class_of browser_type;
          downloads_path = path_join (getcwd e) ''downloads''
      in
      case makedirs_fault e of
        Some x \<Rightarrow> (Escaped x, w, [Enter headless, MakeDirs downloads_path])
      | None \<Rightarrow>
     (case attempt_body e browser_class url download_timeout headless downloads_path
             (w\<lparr>dirs := insert downloads_path (dirs w)\<rparr>) of
        (bound, Raise x, w1, evs) \<Rightarrow>
          (Returned (error_result x), w1,
           [Enter headless, MakeDirs downloads_path] @ evs @ close_browser e bound headless)
      | (bound, Return v, w1, evs) \<Rightarrow>
          (Returned v, w1,
           [Enter headless, MakeDirs downloads_path] @ evs @ close_browser e bound headless)
      | (bound, Next file_size, w1, evs) \<Rightarrow>
          (if file_size < 100 then
             (if headless then
                (case scrape_and_download env url browser_type download_timeout False w1 of
                   (Escaped x, w2, evs') \<Rightarrow>
                     (Returned (error_result x), w2,
                      [Enter headless, MakeDirs downloads_path] @ evs @ evs'
                        @ close_browser e bound headless)
                 | (Returned v, w2, evs') \<Rightarrow>
                     (Returned v, w2,
                      [Enter headless, MakeDirs downloads_path] @ evs @ evs'
                        @ close_browser e bound headless))
              else
                (Returned (True, None), w1,
                 [Enter headless, MakeDirs downloads_path] @ evs
                   @ close_browser e bound headless))
           else
             (Returned (True, None), w1,
              [Enter headless, MakeDirs downloads_path] @ evs
                @ close_browser e bound headless))))"
  by pat_completeness auto
termination
  by (relation "measure (\<lambda>(env, url, browser_type, download_timeout, headless, w).
        if headless then 1 else 0)") auto

declare scrape_and_download.simps [simp del]

subsection \<open>Notions the properties are stated with\<close>

text \<open>A strategy has a visible match when \<^verbatim>\<open>wait_for_selector\<close> returns a handle for it.\<close>

definition visible_match :: "attempt_env \<Rightarrow> string \<Rightarrow> element option" where
  "visible_match e s =
     (case wait_for_selector_out e s of Inr (Some el) \<Rightarrow> Some el | Inr None \<Rightarrow> None | Inl x \<Rightarrow> None)"

text \<open>The strategies in priority order: the five selectors of the loop, then the XPath.\<close>

definition strategies :: "string list" where
  "strategies = selectors @ [xpath_selector]"

text \<open>The text of the failure returned when no strategy matched (lines 102 and 105).\<close>

definition not_found_message :: "attempt_env \<Rightarrow> string" where
  "not_found_message e =
     (case wait_for_selector_out e xpath_selector of
        Inl x \<Rightarrow> ''Download button not found with any selector''
      | Inr r \<Rightarrow> ''Download button not found'')"

text \<open>The \<^verbatim>\<open>headless\<close> arguments of the invocations, in the order they were entered.\<close>

fun entered :: "event list \<Rightarrow> bool list" where
  "entered [] = []"
| "entered (Enter h # evs) = h # entered evs"
| "entered (ev # evs) = entered evs"

text \<open>An invocation holds a browser session when line 53 returned.\<close>

definition session_opened :: "attempt_env \<Rightarrow> bool" where
  "session_opened e = (makedirs_fault e = None \<and> launch_fault e = None)"

text \<open>The destination that lines 127 and 128 compute for a download.\<close>

definition destination_of :: "attempt_env \<Rightarrow> download \<Rightarrow> path" where
  "destination_of e d =
     path_join (getcwd e)
       (basename (path_join (path_join (getcwd e) ''downloads'') (suggested_filename d)))"

text \<open>A reading of a trace from the left, used in the proof about the order of capture and
  copy. It carries the pair (the await of line 123 has returned a path in the current
  invocation, every opening of a destination so far came after that).\<close>

definition write_step :: "bool \<times> bool \<Rightarrow> event \<Rightarrow> bool \<times> bool" where
  "write_step s ev =
     (case ev of
        Enter h \<Rightarrow> (False, snd s)
      | Captured p \<Rightarrow> (True, snd s)
      | OpenWrite p \<Rightarrow> (fst s, fst s \<and> snd s)
      | _ \<Rightarrow> s)"

subsection \<open>Concrete environments\<close>

text \<open>A page on which the third and the fifth selector both match, and a download of seven
  bytes.\<close>

definition calm :: attempt_env where
  "calm = \<lparr>getcwd = ''/work'', makedirs_fault = None, launch_fault = None,
     new_context_fault = None, new_page_fault = None, goto_fault = None,
     wait_for_selector_out =
       (\<lambda>s. if s = ''button:has-text(\"Download\")'' then Inr (Some (ElementHandle 3))
            else if s = ''a:has-text(\"Download\")'' then Inr (Some (ElementHandle 5))
            else Inl (PyException ''Timeout 5000ms exceeded.'')),
     load_state_fault = None, click_fault = None,
     wait_for_event_out = Returns \<lparr>suggested_filename = ''bills.csv'', content = ''id,name''\<rparr>,
     download_path_out = Returns (), handler_makedirs_fault = None, save_as_out = Returns (),
     read_fault = None, open_fault = None, write_fault = None, close_fault = None\<rparr>"

text \<open>No strategy ever matches.\<close>

definition barren :: attempt_env where
  "barren = calm\<lparr>wait_for_selector_out := (\<lambda>s. Inl (PyException ''Timeout 5000ms exceeded.''))\<rparr>"


text \<open>The destination can be opened, and the write faults before a byte reaches the file.\<close>

definition disk_full :: attempt_env where
  "disk_full = calm\<lparr>write_fault := Some (PyException ''[Errno 28] No space left on device'', 0)\<rparr>"


text \<open>The same answers in both modes.\<close>

definition always :: "attempt_env \<Rightarrow> bool \<Rightarrow> attempt_env" where
  "always e h = e"

text \<open>\<open>calm\<close> with a teardown that raises.\<close>

definition faulty_close :: attempt_env where
  "faulty_close = calm\<lparr>close_fault := Some (PyException ''Target closed'')\<rparr>"

definition empty_fs :: fs where
  "empty_fs = \<lparr>files = Map.empty, dirs = {}\<rparr>"

definition sheet_url :: string where
  "sheet_url = ''https://example.org/sheet/''"

section \<open>Auxiliary facts\<close>

subsection \<open>The two cases of the recursion\<close>

lemmas body_defs = attempt_body_def open_page_def find_button_def capture_def materialize_def
lemmas body_splits = option.splits sum.splits prod.splits step.splits awaited.splits if_splits

lemma scrape_False:
  "scrape_and_download env url bt t False w =
     (case makedirs_fault (env False) of
        Some x \<Rightarrow> (Escaped x, w, [Enter False, MakeDirs (path_join (getcwd (env False)) ''downloads'')])
      | None \<Rightarrow>
          (case attempt_body (env False) (browser_class_of bt) url t False
                  (path_join (getcwd (env False)) ''downloads'')
                  (w\<lparr>dirs := insert (path_join (getcwd (env False)) ''downloads'') (dirs w)\<rparr>) of
             (bound, r, w1, evs) \<Rightarrow>
               (Returned (case r of Raise x \<Rightarrow> error_result x | Return v \<Rightarrow> v | Next n \<Rightarrow> (True, None)),
                w1,
                [Enter False, MakeDirs (path_join (getcwd (env False)) ''downloads'')] @ evs
                  @ close_browser (env False) bound False)))"
  by (subst scrape_and_download.simps) (simp add: Let_def split: body_splits)

lemma scrape_True:
  "scrape_and_download env url bt t True w =
     (case makedirs_fault (env True) of
        Some x \<Rightarrow> (Escaped x, w, [Enter True, MakeDirs (path_join (getcwd (env True)) ''downloads'')])
      | None \<Rightarrow>
          (case attempt_body (env True) (browser_class_of bt) url t True
                  (path_join (getcwd (env True)) ''downloads'')
                  (w\<lparr>dirs := insert (path_join (getcwd (env True)) ''downloads'') (dirs w)\<rparr>) of
             (bound, r, w1, evs) \<Rightarrow>
               (case r of
                  Next n \<Rightarrow>
                    if n < 100 then
                      (case scrape_and_download env url bt t False w1 of
                         (out, w2, evs') \<Rightarrow>
                           (Returned (case out of Escaped x \<Rightarrow> error_result x | Returned v \<Rightarrow> v),
                            w2,
                            [Enter True, MakeDirs (path_join (getcwd (env True)) ''downloads'')] @ evs
                              @ evs' @ close_browser (env True) bound True))
                    else
                      (Returned (True, None), w1,
                       [Enter True, MakeDirs (path_join (getcwd (env True)) ''downloads'')] @ evs
                         @ close_browser (env True) bound True)
                | Raise x \<Rightarrow>
                    (Returned (error_result x), w1,
                     [Enter True, MakeDirs (path_join (getcwd (env True)) ''downloads'')] @ evs
                       @ close_browser (env True) bound True)
                | Return v \<Rightarrow>
                    (Returned v, w1,
                     [Enter True, MakeDirs (path_join (getcwd (env True)) ''downloads'')] @ evs
                       @ close_browser (env True) bound True))))"
  by (subst scrape_and_download.simps) (simp add: Let_def split: body_splits outcome.splits)

subsection \<open>The selector loop\<close>

lemma probe_selectors_none:
  "list_all (\<lambda>s. visible_match e s = None) ss \<Longrightarrow>
   probe_selectors e ss = (None, map WaitForSelector ss)"
  by (induction ss) (auto simp: visible_match_def split: sum.splits option.splits)

lemma probe_selectors_first:
  "i < length ss \<Longrightarrow> visible_match e (ss ! i) = Some el \<Longrightarrow>
   list_all (\<lambda>s. visible_match e s = None) (take i ss) \<Longrightarrow>
   probe_selectors e ss = (Some el, map WaitForSelector (take (Suc i) ss))"
proof (induction ss arbitrary: i)
  case Nil
  then show ?case by simp
next
  case (Cons s ss)
  show ?case
  proof (cases i)
    case 0
    with Cons.prems show ?thesis
      by (auto simp: visible_match_def split: sum.splits option.splits)
  next
    case (Suc j)
    with Cons.prems have "probe_selectors e ss = (Some el, map WaitForSelector (take (Suc j) ss))"
      by (intro Cons.IH) auto
    moreover from Suc Cons.prems have "visible_match e s = None" by simp
    ultimately show ?thesis using Suc
      by (auto simp: visible_match_def split: sum.splits option.splits)
  qed
qed

lemma probe_selectors_events:
  "\<exists>k. snd (probe_selectors e ss) = map WaitForSelector (take k ss)"
proof (induction ss)
  case Nil
  then show ?case by simp
next
  case (Cons s ss)
  then obtain k where k: "snd (probe_selectors e ss) = map WaitForSelector (take k ss)" by blast
  show ?case
  proof (cases "visible_match e s")
    case None
    then have "snd (probe_selectors e (s # ss)) = map WaitForSelector (take (Suc k) (s # ss))"
      using k by (auto simp: visible_match_def split: sum.splits option.splits prod.splits)
    then show ?thesis by blast
  next
    case (Some el)
    then have "snd (probe_selectors e (s # ss)) = map WaitForSelector (take (Suc 0) (s # ss))"
      by (auto simp: visible_match_def split: sum.splits option.splits)
    then show ?thesis by blast
  qed
qed

lemma entered_append: "entered (xs @ ys) = entered xs @ entered ys"
  by (induction xs rule: entered.induct) auto

lemma entered_probes: "entered (map WaitForSelector ss) = []"
  by (induction ss) auto

lemma count_close_probes: "count_list (map WaitForSelector ss) (Close b) = 0"
  by (induction ss) auto

lemma write_probes: "foldl write_step s (map WaitForSelector ss) = s"
  by (induction ss) (auto simp: write_step_def)

subsection \<open>The body of one invocation\<close>

lemma body_bound:
  "attempt_body e bc url t h dp w = (bound, r, w', evs) \<Longrightarrow> bound = (launch_fault e = None)"
  by (auto simp: body_defs Let_def split: body_splits)

lemma body_entered:
  assumes "attempt_body e bc url t h dp w = (bound, r, w', evs)"
  shows "entered evs = []"
proof -
  obtain k where "snd (probe_selectors e selectors) = map WaitForSelector (take k selectors)"
    using probe_selectors_events by blast
  with assms show ?thesis
    by (auto simp: body_defs Let_def entered_append entered_probes split: body_splits)
qed

lemma body_no_close:
  assumes "attempt_body e bc url t h dp w = (bound, r, w', evs)"
  shows "count_list evs (Close b) = 0"
proof -
  obtain k where "snd (probe_selectors e selectors) = map WaitForSelector (take k selectors)"
    using probe_selectors_events by blast
  with assms show ?thesis
    by (auto simp: body_defs Let_def count_close_probes split: body_splits)
qed

lemma body_write:
  assumes "attempt_body e bc url t h dp w = (bound, r, w', evs)"
  shows "snd (foldl write_step s evs) = snd s"
proof -
  obtain k where "snd (probe_selectors e selectors) = map WaitForSelector (take k selectors)"
    using probe_selectors_events by blast
  with assms show ?thesis
    by (auto simp: body_defs Let_def write_probes write_step_def split: body_splits)
qed



lemma body_return:
  "attempt_body e bc url t h dp w = (bound, Return (ok, reason), w', evs) \<Longrightarrow>
   \<not> ok \<and> reason \<noteq> None"
  by (auto simp: body_defs Let_def split: body_splits)

lemma body_materialized:
  assumes "attempt_body e bc url t h dp w0 = (bound, Next n, w1, evs)"
  shows "\<exists>d. wait_for_event_out e = Returns d \<and>
           Captured (path_join dp (suggested_filename d)) \<in> set evs \<and>
           files w1 (path_join dp (suggested_filename d)) = Some (content d) \<and>
           files w1 (path_join (getcwd e) (basename (path_join dp (suggested_filename d))))
             = Some (content d) \<and>
           n = length (content d)"
  using assms
  by (auto simp: body_defs setup_download_handler_def Let_def split: body_splits)

subsection \<open>Results\<close>

lemma scrape_result_False:
  "scrape_and_download env url bt t False w = (Returned (ok, reason), w', evs) \<Longrightarrow>
   ok = (reason = None)"
  by (auto simp: scrape_False error_result_def split: body_splits dest: body_return)

subsection \<open>Invocations entered\<close>

lemma entered_close: "entered (close_browser e b h) = []"
  by (simp add: close_browser_def split: option.splits)

lemma scrape_entered_False:
  "entered (snd (snd (scrape_and_download env url bt t False w))) = [False]"
  by (auto simp: scrape_False entered_append entered_close split: body_splits dest: body_entered)

lemma scrape_entered_True:
  "entered (snd (snd (scrape_and_download env url bt t True w))) = [True] \<or>
   entered (snd (snd (scrape_and_download env url bt t True w))) = [True, False]"
proof (cases "makedirs_fault (env True)")
  case (Some x)
  then show ?thesis by (simp add: scrape_True)
next
  case None
  obtain bound r w1 evs where body:
    "attempt_body (env True) (browser_class_of bt) url t True
       (path_join (getcwd (env True)) ''downloads'')
       (w\<lparr>dirs := insert (path_join (getcwd (env True)) ''downloads'') (dirs w)\<rparr>)
     = (bound, r, w1, evs)"
    by (metis prod_cases4)
  have quiet: "entered evs = []" using body by (rule body_entered)
  obtain out w2 evs' where inner: "scrape_and_download env url bt t False w1 = (out, w2, evs')"
    by (metis prod_cases3)
  have "entered evs' = [False]"
    using scrape_entered_False[of env url bt t w1] inner by simp
  with None body quiet inner show ?thesis
    by (simp add: scrape_True entered_append entered_close split: step.splits)
qed

subsection \<open>Capture and destination\<close>

lemma scrape_write_False:
  "snd (foldl write_step s (snd (snd (scrape_and_download env url bt t False w)))) = snd s"
  by (auto simp: scrape_False close_browser_def write_step_def split: body_splits
      dest: body_write[where s = "(False, snd s)"])

lemma scrape_write_True:
  "snd (foldl write_step s (snd (snd (scrape_and_download env url bt t True w)))) = snd s"
proof -
  have inner: "\<And>w1 out w2 evs' s'. scrape_and_download env url bt t False w1 = (out, w2, evs')
      \<Longrightarrow> snd (foldl write_step s' evs') = snd s'"
    using scrape_write_False by (metis snd_conv)
  show ?thesis
    by (auto simp: scrape_True close_browser_def write_step_def inner split: body_splits
        dest: body_write[where s = "(False, snd s)"])
qed

lemma scrape_write:
  "snd (foldl write_step (False, True) (snd (snd (scrape_and_download env url bt t headless w))))"
  using scrape_write_False[of "(False, True)" env url bt t w]
    scrape_write_True[of "(False, True)" env url bt t w]
  by (cases headless) auto

lemma write_ok_mono: "snd (foldl write_step s xs) \<Longrightarrow> snd s"
proof (induction xs arbitrary: s)
  case Nil
  then show ?case by simp
next
  case (Cons x xs)
  then have "snd (write_step s x)" by simp
  then show ?case by (cases x) (auto simp: write_step_def)
qed

lemma write_sound:
  assumes "snd (foldl write_step s (pre @ OpenWrite p # post))"
  shows "(fst s \<and> (\<forall>h. Enter h \<notin> set pre)) \<or>
         (\<exists>a q b. pre = a @ Captured q # b \<and> (\<forall>h. Enter h \<notin> set b))"
  using assms
proof (induction pre arbitrary: s)
  case Nil
  then have "snd (write_step s (OpenWrite p))"
    using write_ok_mono[of "write_step s (OpenWrite p)" post] by simp
  then show ?case by (simp add: write_step_def)
next
  case (Cons x xs)
  from Cons.prems have "snd (foldl write_step (write_step s x) (xs @ OpenWrite p # post))" by simp
  from Cons.IH[OF this]
  consider (captured) "fst (write_step s x)" "\<forall>h. Enter h \<notin> set xs"
    | (later) a q b where "xs = a @ Captured q # b" "\<forall>h. Enter h \<notin> set b"
    by blast
  then show ?case
  proof cases
    case captured
    show ?thesis
    proof (cases x)
      case (Captured q)
      with captured have "x # xs = [] @ Captured q # xs \<and> (\<forall>h. Enter h \<notin> set xs)"
        by simp
      then show ?thesis by blast
    qed (use captured in \<open>auto simp: write_step_def\<close>)
  next
    case later
    then have "x # xs = (x # a) @ Captured q # b" by simp
    with later show ?thesis by blast
  qed
qed

lemma scrape_success_False:
  assumes "scrape_and_download env url bt t False w = (Returned (True, None), w', evs)"
  shows "\<exists>d. wait_for_event_out (env False) = Returns d \<and>
           files w' (destination_of (env False) d) = Some (content d)"
proof (cases "makedirs_fault (env False)")
  case (Some x)
  with assms show ?thesis by (simp add: scrape_False)
next
  case None
  let ?dp = "path_join (getcwd (env False)) ''downloads''"
  obtain bound r w1 evs1 where body:
    "attempt_body (env False) (browser_class_of bt) url t False ?dp
       (w\<lparr>dirs := insert ?dp (dirs w)\<rparr>) = (bound, r, w1, evs1)"
    by (metis prod_cases4)
  from assms None body have w': "w' = w1"
    and r: "(case r of Raise x \<Rightarrow> error_result x | Return v \<Rightarrow> v | Next n \<Rightarrow> (True, None)) = (True, None)"
    by (simp_all add: scrape_False)
  from r obtain n where n: "r = Next n"
    using body_return[of "env False" "browser_class_of bt" url t False ?dp
        "w\<lparr>dirs := insert ?dp (dirs w)\<rparr>" bound] body
    by (cases r) (auto simp: error_result_def)
  show ?thesis
    using body_materialized[OF body[unfolded n]] by (auto simp: w' destination_of_def)
qed

lemma scrape_success_True:
  assumes "scrape_and_download env url bt t True w = (Returned (True, None), w', evs)"
  shows "\<exists>h d. wait_for_event_out (env h) = Returns d \<and>
           files w' (destination_of (env h) d) = Some (content d)"
proof (cases "makedirs_fault (env True)")
  case (Some x)
  with assms show ?thesis by (simp add: scrape_True)
next
  case None
  let ?dp = "path_join (getcwd (env True)) ''downloads''"
  obtain bound r w1 evs1 where body:
    "attempt_body (env True) (browser_class_of bt) url t True ?dp
       (w\<lparr>dirs := insert ?dp (dirs w)\<rparr>) = (bound, r, w1, evs1)"
    by (metis prod_cases4)
  obtain out2 w2 evs2 where inner: "scrape_and_download env url bt t False w1 = (out2, w2, evs2)"
    by (metis prod_cases3)
  show ?thesis
  proof (cases r)
    case (Raise x)
    with assms None body show ?thesis by (simp add: scrape_True error_result_def)
  next
    case (Return v)
    with assms None body body_return[of "env True" "browser_class_of bt" url t True ?dp
        "w\<lparr>dirs := insert ?dp (dirs w)\<rparr>" bound] show ?thesis
      by (cases v) (auto simp: scrape_True)
  next
    case (Next n)
    show ?thesis
    proof (cases "n < 100")
      case True
      with assms None body inner Next have "out2 = Returned (True, None)" and "w' = w2"
        by (auto simp: scrape_True error_result_def split: outcome.splits)
      with inner scrape_success_False[of env url bt t w1 w2 evs2] show ?thesis by blast
    next
      case False
      with assms None body Next have "w' = w1" by (simp add: scrape_True)
      with body_materialized[OF body[unfolded Next]] show ?thesis
        by (auto simp: destination_of_def)
    qed
  qed
qed

subsection \<open>Exhausted strategies\<close>

lemma find_button_exhausted:
  assumes "list_all (\<lambda>s. visible_match e s = None) strategies"
  shows "find_button e =
     (Return (False, Some (not_found_message e)), map WaitForSelector strategies)"
proof -
  from assms have "list_all (\<lambda>s. visible_match e s = None) selectors"
    and x: "visible_match e xpath_selector = None"
    by (simp_all add: strategies_def)
  then have "probe_selectors e selectors = (None, map WaitForSelector selectors)"
    by (intro probe_selectors_none)
  with x show ?thesis
    by (auto simp: find_button_def strategies_def visible_match_def not_found_message_def
        split: sum.splits option.splits)
qed


subsection \<open>The fault of the teardown is not read\<close>

lemma probe_close_fault:
  "probe_selectors (e\<lparr>close_fault := c\<rparr>) ss = probe_selectors e ss"
  by (induction ss) (auto split: sum.splits option.splits)

lemma open_page_close_fault:
  "open_page (e\<lparr>close_fault := c\<rparr>) bc url h = open_page e bc url h"
  by (simp add: open_page_def split: option.splits)

lemma find_button_close_fault:
  "find_button (e\<lparr>close_fault := c\<rparr>) = find_button e"
  by (simp add: find_button_def probe_close_fault split: prod.splits option.splits sum.splits)

lemma handler_close_fault:
  "setup_download_handler (e\<lparr>close_fault := c\<rparr>) dp w = setup_download_handler e dp w"
  by (simp add: setup_download_handler_def Let_def split: awaited.splits option.splits)

lemma capture_close_fault:
  "capture (e\<lparr>close_fault := c\<rparr>) dp t el w = capture e dp t el w"
  by (simp add: capture_def handler_close_fault split: option.splits)

lemma materialize_close_fault:
  "materialize (e\<lparr>close_fault := c\<rparr>) p w = materialize e p w"
  by (simp add: materialize_def Let_def split: option.splits prod.splits)

lemma body_close_fault:
  "attempt_body (e\<lparr>close_fault := c\<rparr>) bc url t h dp w = attempt_body e bc url t h dp w"
  by (simp add: attempt_body_def open_page_close_fault find_button_close_fault
      capture_close_fault materialize_close_fault
      cong: prod.case_cong option.case_cong step.case_cong if_cong)

lemma close_browser_close_fault:
  "close_browser (e\<lparr>close_fault := c\<rparr>) bound h = close_browser e bound h"
  by (simp add: close_browser_def split: option.splits)

lemma scrape_close_fault_False:
  "scrape_and_download (\<lambda>b. (env b)\<lparr>close_fault := cf b\<rparr>) url bt t False w
     = scrape_and_download env url bt t False w"
  by (simp add: scrape_False body_close_fault close_browser_close_fault
      cong: option.case_cong)

lemma scrape_close_fault:
  "scrape_and_download (\<lambda>b. (env b)\<lparr>close_fault := cf b\<rparr>) url bt t headless w
     = scrape_and_download env url bt t headless w"
  by (cases headless)
    (simp_all add: scrape_True scrape_False body_close_fault close_browser_close_fault
      scrape_close_fault_False
      cong: option.case_cong prod.case_cong step.case_cong if_cong)

subsection \<open>Counting the teardown\<close>

lemma count_close_browser:
  "count_list (close_browser e bound h) (Close b) = (if bound \<and> b = h then 1 else 0)"
  by (simp add: close_browser_def split: option.splits)

lemma last_close_browser:
  "last (xs @ close_browser e True h) = Close h"
  by (simp add: close_browser_def split: option.splits)

lemma scrape_close_False:
  assumes "scrape_and_download env url bt t False w = (out, w', evs)"
  shows "count_list evs (Close b) = (if session_opened (env False) \<and> \<not> b then 1 else 0) \<and>
         (session_opened (env False) \<longrightarrow> last evs = Close False)"
proof (cases "makedirs_fault (env False)")
  case (Some x)
  with assms show ?thesis by (auto simp: scrape_False session_opened_def)
next
  case None
  let ?dp = "path_join (getcwd (env False)) ''downloads''"
  obtain bound r w1 evs1 where body:
    "attempt_body (env False) (browser_class_of bt) url t False ?dp
       (w\<lparr>dirs := insert ?dp (dirs w)\<rparr>) = (bound, r, w1, evs1)"
    by (metis prod_cases4)
  have b: "bound = (launch_fault (env False) = None)" using body by (rule body_bound)
  have c: "count_list evs1 (Close b) = 0" using body by (rule body_no_close)
  from assms None body
  have evs: "evs = [Enter False, MakeDirs ?dp] @ evs1 @ close_browser (env False) bound False"
    by (auto simp: scrape_False)
  show ?thesis
    using None b c last_close_browser[of "[Enter False, MakeDirs ?dp] @ evs1" "env False" False]
    by (auto simp: evs count_close_browser session_opened_def)
qed

lemma scrape_close_True:
  assumes "scrape_and_download env url bt t True w = (out, w', evs)"
  shows "count_list evs (Close True) = (if session_opened (env True) then 1 else 0) \<and>
         (session_opened (env True) \<longrightarrow> last evs = Close True)"
proof (cases "makedirs_fault (env True)")
  case (Some x)
  with assms show ?thesis by (auto simp: scrape_True session_opened_def)
next
  case None
  let ?dp = "path_join (getcwd (env True)) ''downloads''"
  obtain bound r w1 evs1 where body:
    "attempt_body (env True) (browser_class_of bt) url t True ?dp
       (w\<lparr>dirs := insert ?dp (dirs w)\<rparr>) = (bound, r, w1, evs1)"
    by (metis prod_cases4)
  have b: "bound = (launch_fault (env True) = None)" using body by (rule body_bound)
  have c: "count_list evs1 (Close True) = 0" using body by (rule body_no_close)
  obtain out2 w2 evs2 where inner: "scrape_and_download env url bt t False w1 = (out2, w2, evs2)"
    by (metis prod_cases3)
  have c2: "count_list evs2 (Close True) = 0"
    using scrape_close_False[OF inner, of True] by simp
  from assms None body inner
  have "\<exists>mid. evs = ([Enter True, MakeDirs ?dp] @ evs1 @ mid) @ close_browser (env True) bound True
          \<and> count_list mid (Close True) = 0"
    using c2 by (auto simp: scrape_True split: step.splits if_splits)
  then obtain mid
    where evs: "evs = ([Enter True, MakeDirs ?dp] @ evs1 @ mid) @ close_browser (env True) bound True"
      and mid: "count_list mid (Close True) = 0" by blast
  show ?thesis
    using None b c mid
      last_close_browser[of "[Enter True, MakeDirs ?dp] @ evs1 @ mid" "env True" True]
    by (auto simp: evs count_close_browser session_opened_def)
qed

subsection \<open>Directories\<close>





subsection \<open>Concrete runs\<close>

lemmas run_defs = scrape_True scrape_False body_defs setup_download_handler_def selectors_def
  xpath_selector_def path_join_def basename_def dirname_def close_browser_def
  browser_class_of_def error_result_def timeout_error_def Let_def empty_fs_def always_def

lemma calm_run_result:
  "fst (scrape_and_download (always calm) sheet_url ''chromium'' 30 True empty_fs)
     = Returned (True, None)"
  by (simp add: run_defs calm_def)

lemma calm_run_events:
  "snd (snd (scrape_and_download (always calm) sheet_url ''chromium'' 30 True empty_fs))
     = [Enter True, MakeDirs ''/work/downloads'', Launch Chromium True,
        NewContext, NewPage, Goto sheet_url,
        WaitForSelector ''#download-sheet'',
        WaitForSelector ''button#download-sheet'',
        WaitForSelector ''button:has-text(\"Download\")'',
        WaitForLoadState, CreateTask, Click (ElementHandle 3), WaitFor 30,
        Captured ''/work/downloads/bills.csv'',
        OpenRead ''/work/downloads/bills.csv'', OpenWrite ''/work/bills.csv'',
        Enter False, MakeDirs ''/work/downloads'', Launch Chromium False,
        NewContext, NewPage, Goto sheet_url,
        WaitForSelector ''#download-sheet'',
        WaitForSelector ''button#download-sheet'',
        WaitForSelector ''button:has-text(\"Download\")'',
        WaitForLoadState, CreateTask, Click (ElementHandle 3), WaitFor 30,
        Captured ''/work/downloads/bills.csv'',
        OpenRead ''/work/downloads/bills.csv'', OpenWrite ''/work/bills.csv'',
        Close False, Close True]"
  by (simp add: run_defs calm_def)

lemma calm_run_files:
  "files (fst (snd (scrape_and_download (always calm) sheet_url ''chromium'' 30 True empty_fs)))
     ''/work/bills.csv'' = Some ''id,name''"
  by (simp add: run_defs calm_def)

lemma calm_body:
  "\<exists>w1 evs1. attempt_body calm Chromium sheet_url 30 False ''/work/downloads''
       (empty_fs\<lparr>dirs := insert ''/work/downloads'' (dirs empty_fs)\<rparr>)
     = (True, Next 7, w1, evs1)"
  by (auto simp: run_defs calm_def)

section \<open>The claims\<close>

subsection \<open>C1\<close>

text \<open>
  C1, as the source has it. When the first, headless invocation reaches the size test with
  a file below 100 bytes and the non-headless invocation it starts reaches the size test
  with a file below 100 bytes as well, the call makes no further invocation and returns
  the success pair \<open>(True, None)\<close>: the small file of a non-headless invocation is only
  warned about. The source has no failure for a file that is too small.
\<close>

theorem small_retry_reports_success:
  assumes "makedirs_fault (env True) = None"
    and "attempt_body (env True) (browser_class_of bt) url t True
           (path_join (getcwd (env True)) ''downloads'')
           (w\<lparr>dirs := insert (path_join (getcwd (env True)) ''downloads'') (dirs w)\<rparr>)
         = (b1, Next n1, w1, evs1)"
    and "n1 < 100"
    and "makedirs_fault (env False) = None"
    and "attempt_body (env False) (browser_class_of bt) url t False
           (path_join (getcwd (env False)) ''downloads'')
           (w1\<lparr>dirs := insert (path_join (getcwd (env False)) ''downloads'') (dirs w1)\<rparr>)
         = (b2, Next n2, w2, evs2)"
    and "n2 < 100"
  shows "fst (scrape_and_download env url bt t True w) = Returned (True, None) \<and>
         entered (snd (snd (scrape_and_download env url bt t True w))) = [True, False]"
  using assms body_entered[OF assms(2)] body_entered[OF assms(5)]
  by (simp add: scrape_True scrape_False entered_append entered_close)

text \<open>The theorem at the environment \<open>calm\<close>, whose download has seven bytes in both
  invocations.\<close>

theorem small_retry_witness:
  "fst (scrape_and_download (always calm) sheet_url ''chromium'' 30 True empty_fs)
     = Returned (True, None) \<and>
   entered (snd (snd (scrape_and_download (always calm) sheet_url ''chromium'' 30 True empty_fs)))
     = [True, False]"
proof -
  have "\<exists>b1 n1 w1 evs1 b2 n2 w2 evs2.
      attempt_body (always calm True) (browser_class_of ''chromium'') sheet_url 30 True
         (path_join (getcwd (always calm True)) ''downloads'')
         (empty_fs\<lparr>dirs := insert (path_join (getcwd (always calm True)) ''downloads'')
                              (dirs empty_fs)\<rparr>)
       = (b1, Next n1, w1, evs1) \<and> n1 < 100 \<and>
      attempt_body (always calm False) (browser_class_of ''chromium'') sheet_url 30 False
         (path_join (getcwd (always calm False)) ''downloads'')
         (w1\<lparr>dirs := insert (path_join (getcwd (always calm False)) ''downloads'') (dirs w1)\<rparr>)
       = (b2, Next n2, w2, evs2) \<and> n2 < 100"
    by (auto simp: run_defs calm_def)
  then obtain b1 n1 w1 evs1 b2 n2 w2 evs2 where
    a1: "attempt_body (always calm True) (browser_class_of ''chromium'') sheet_url 30 True
         (path_join (getcwd (always calm True)) ''downloads'')
         (empty_fs\<lparr>dirs := insert (path_join (getcwd (always calm True)) ''downloads'')
                              (dirs empty_fs)\<rparr>)
       = (b1, Next n1, w1, evs1)" and s1: "n1 < 100" and
    a2: "attempt_body (always calm False) (browser_class_of ''chromium'') sheet_url 30 False
         (path_join (getcwd (always calm False)) ''downloads'')
         (w1\<lparr>dirs := insert (path_join (getcwd (always calm False)) ''downloads'') (dirs w1)\<rparr>)
       = (b2, Next n2, w2, evs2)" and s2: "n2 < 100"
    by blast
  have m: "makedirs_fault (always calm True) = None" "makedirs_fault (always calm False) = None"
    by (simp_all add: calm_def always_def)
  show ?thesis
    using small_retry_reports_success[where env = "always calm", OF m(1) a1 s1 m(2) a2 s2]
    by simp
qed

text \<open>The claim as the specification states it fails at \<open>calm\<close>: two invocations are
  made, the destination holds seven bytes, and the call reports success.\<close>

theorem small_retry_counterexample:
  "fst (scrape_and_download (always calm) sheet_url ''chromium'' 30 True empty_fs)
     = Returned (True, None) \<and>
   fst (scrape_and_download (always calm) sheet_url ''chromium'' 30 True empty_fs)
     \<noteq> Returned (False, Some ''file too small'') \<and>
   entered (snd (snd (scrape_and_download (always calm) sheet_url ''chromium'' 30 True empty_fs)))
     = [True, False] \<and>
   files (fst (snd (scrape_and_download (always calm) sheet_url ''chromium'' 30 True empty_fs)))
     ''/work/bills.csv'' = Some ''id,name'' \<and>
   length ''id,name'' < (100::nat)"
  by (simp add: calm_run_result calm_run_events calm_run_files)

subsection \<open>C2\<close>

text \<open>
  C2. Whatever the environment answers, and so on every exit path of an invocation
  (success, button not found, timeout of the download, any fault), an invocation that
  holds a browser session issues \<^verbatim>\<open>browser.close()\<close> for it exactly once, as the last
  event before its result is returned, and an invocation without a session issues none.
  A fault of the teardown does not change the result: the call returns the same pair
  whatever \<^verbatim>\<open>close\<close> raises.
\<close>

theorem session_closed_once:
  assumes "scrape_and_download env url bt t headless w = (out, w', evs)"
  shows "count_list evs (Close headless) = (if session_opened (env headless) then 1 else 0) \<and>
         (session_opened (env headless) \<longrightarrow> last evs = Close headless) \<and>
         fst (scrape_and_download (\<lambda>b. (env b)\<lparr>close_fault := cf b\<rparr>) url bt t headless w) = out"
proof (cases headless)
  case True
  with assms scrape_close_True[of env url bt t w out w' evs] show ?thesis
    by (simp add: scrape_close_fault)
next
  case False
  with assms scrape_close_False[of env url bt t w out w' evs False] show ?thesis
    by (simp add: scrape_close_fault)
qed

theorem session_closed_once_witness:
  "session_opened calm \<and>
   count_list (snd (snd (scrape_and_download (always calm) sheet_url ''chromium'' 30 True empty_fs)))
     (Close True) = 1 \<and>
   last (snd (snd (scrape_and_download (always calm) sheet_url ''chromium'' 30 True empty_fs)))
     = Close True \<and>
   fst (scrape_and_download (always faulty_close) sheet_url ''chromium'' 30 True empty_fs)
     = Returned (True, None)"
proof -
  have run: "scrape_and_download (always calm) sheet_url ''chromium'' 30 True empty_fs
      = (Returned (True, None),
         fst (snd (scrape_and_download (always calm) sheet_url ''chromium'' 30 True empty_fs)),
         snd (snd (scrape_and_download (always calm) sheet_url ''chromium'' 30 True empty_fs)))"
    by (simp add: prod_eq_iff calm_run_result)
  have opened: "session_opened calm"
    by (simp add: session_opened_def calm_def)
  have env: "(\<lambda>b. (always calm b)\<lparr>close_fault := Some (PyException ''Target closed'')\<rparr>)
      = always faulty_close"
    by (simp add: fun_eq_iff always_def faulty_close_def)
  note inst = session_closed_once[OF run, of "\<lambda>h. Some (PyException ''Target closed'')",
      unfolded env]
  show ?thesis
    using inst opened by (simp add: always_def)
qed

subsection \<open>C3\<close>

text \<open>
  C3. For every list of strategies and every page: when the strategy at position \<open>i\<close> has
  a visible match and no strategy before it has one, the loop returns the element of
  that strategy and has probed exactly the first \<open>i + 1\<close> strategies, whatever the later
  strategies would match. For the list of the source (the five selectors, then the
  XPath) the resolver as a whole does the same.
\<close>

theorem resolver_first_match:
  assumes "i < length ss"
    and "visible_match e (ss ! i) = Some el"
    and "list_all (\<lambda>s. visible_match e s = None) (take i ss)"
  shows "probe_selectors e ss = (Some el, map WaitForSelector (take (Suc i) ss)) \<and>
         (ss = strategies \<longrightarrow>
            find_button e = (Next el, map WaitForSelector (take (Suc i) strategies)))"
proof
  show "probe_selectors e ss = (Some el, map WaitForSelector (take (Suc i) ss))"
    using assms by (rule probe_selectors_first)
  show "ss = strategies \<longrightarrow>
          find_button e = (Next el, map WaitForSelector (take (Suc i) strategies))"
  proof
    assume ss: "ss = strategies"
    show "find_button e = (Next el, map WaitForSelector (take (Suc i) strategies))"
    proof (cases "i < length selectors")
      case True
      have "visible_match e (selectors ! i) = Some el"
        using assms(2) True by (simp add: ss strategies_def nth_append)
      moreover have "list_all (\<lambda>s. visible_match e s = None) (take i selectors)"
        using assms(3) True by (simp add: ss strategies_def)
      ultimately have
        "probe_selectors e selectors = (Some el, map WaitForSelector (take (Suc i) selectors))"
        using True by (intro probe_selectors_first)
      with True show ?thesis
        by (simp add: find_button_def strategies_def)
    next
      case False
      with assms(1) have i: "i = length selectors"
        by (simp add: ss strategies_def)
      have "list_all (\<lambda>s. visible_match e s = None) selectors"
        using assms(3) by (simp add: ss strategies_def i)
      then have "probe_selectors e selectors = (None, map WaitForSelector selectors)"
        by (rule probe_selectors_none)
      moreover have "visible_match e xpath_selector = Some el"
        using assms(2) by (simp add: ss strategies_def i)
      ultimately show ?thesis
        by (auto simp: find_button_def strategies_def i visible_match_def
            split: sum.splits option.splits)
    qed
  qed
qed

text \<open>At \<open>calm\<close> the third and the fifth strategy both match; the third wins and the
  fourth, the fifth and the XPath are never probed.\<close>

theorem resolver_first_match_witness:
  "visible_match calm (strategies ! 2) = Some (ElementHandle 3) \<and>
   visible_match calm (strategies ! 4) = Some (ElementHandle 5) \<and>
   find_button calm =
     (Next (ElementHandle 3),
      [WaitForSelector ''#download-sheet'', WaitForSelector ''button#download-sheet'',
       WaitForSelector ''button:has-text(\"Download\")''])"
proof -
  have a: "2 < length strategies"
    by (simp add: strategies_def selectors_def)
  have b: "visible_match calm (strategies ! 2) = Some (ElementHandle 3)"
    by (simp add: strategies_def selectors_def visible_match_def calm_def)
  have c: "list_all (\<lambda>s. visible_match calm s = None) (take 2 strategies)"
    by (simp add: strategies_def selectors_def visible_match_def calm_def)
  have d: "visible_match calm (strategies ! 4) = Some (ElementHandle 5)"
    by (simp add: strategies_def selectors_def visible_match_def calm_def)
  show ?thesis
    using resolver_first_match[OF a b c] b d
    by (simp add: strategies_def selectors_def)
qed

subsection \<open>C4\<close>

text \<open>
  C4. When the page was opened and none of the six strategies has a visible match (each
  wait raises its timeout or returns nothing), the resolver ends in a returned value and
  not in an exception, and the call returns the button-not-found failure. Its events are
  the opening of the page, one probe per strategy and the teardown: no handler task is
  created, nothing is clicked, no download is awaited, and no file is touched.
\<close>

theorem button_not_found_fails:
  assumes "makedirs_fault (env headless) = None"
    and "launch_fault (env headless) = None"
    and "new_context_fault (env headless) = None"
    and "new_page_fault (env headless) = None"
    and "goto_fault (env headless) = None"
    and "list_all (\<lambda>s. visible_match (env headless) s = None) strategies"
  shows "scrape_and_download env url bt t headless w =
     (Returned (False, Some (not_found_message (env headless))),
      w\<lparr>dirs := insert (path_join (getcwd (env headless)) ''downloads'') (dirs w)\<rparr>,
      [Enter headless, MakeDirs (path_join (getcwd (env headless)) ''downloads''),
       Launch (browser_class_of bt) headless, NewContext, NewPage, Goto url]
      @ map WaitForSelector strategies @ [Close headless])"
proof -
  have "attempt_body (env headless) (browser_class_of bt) url t headless
          (path_join (getcwd (env headless)) ''downloads'')
          (w\<lparr>dirs := insert (path_join (getcwd (env headless)) ''downloads'') (dirs w)\<rparr>)
        = (True, Return (False, Some (not_found_message (env headless))),
           w\<lparr>dirs := insert (path_join (getcwd (env headless)) ''downloads'') (dirs w)\<rparr>,
           [Launch (browser_class_of bt) headless, NewContext, NewPage, Goto url]
             @ map WaitForSelector strategies)"
    using assms by (simp add: attempt_body_def open_page_def find_button_exhausted)
  with assms(1) show ?thesis
    by (cases headless)
      (simp_all add: scrape_True scrape_False close_browser_def split: option.splits)
qed

theorem button_not_found_witness:
  "scrape_and_download (always barren) sheet_url ''chromium'' 30 True empty_fs =
     (Returned (False, Some ''Download button not found with any selector''),
      \<lparr>files = Map.empty, dirs = {''/work/downloads''}\<rparr>,
      [Enter True, MakeDirs ''/work/downloads'', Launch Chromium True, NewContext, NewPage,
       Goto sheet_url,
       WaitForSelector ''#download-sheet'', WaitForSelector ''button#download-sheet'',
       WaitForSelector ''button:has-text(\"Download\")'',
       WaitForSelector ''button:has-text(\"Export\")'',
       WaitForSelector ''a:has-text(\"Download\")'',
       WaitForSelector ''xpath=//*[@id=\"download-sheet\"]'',
       Close True])"
proof -
  have a: "makedirs_fault (always barren True) = None" "launch_fault (always barren True) = None"
    "new_context_fault (always barren True) = None" "new_page_fault (always barren True) = None"
    "goto_fault (always barren True) = None"
    by (simp_all add: barren_def calm_def always_def)
  have b: "list_all (\<lambda>s. visible_match (always barren True) s = None) strategies"
    by (simp add: strategies_def selectors_def visible_match_def barren_def always_def)
  show ?thesis
    using button_not_found_fails[where env = "always barren" and headless = True, OF a b,
        of sheet_url "''chromium''" 30 empty_fs]
    by (simp add: not_found_message_def barren_def calm_def strategies_def selectors_def
        xpath_selector_def path_join_def browser_class_of_def empty_fs_def always_def)
qed

subsection \<open>C5\<close>

text \<open>
  C5. In one call the invocations entered are either the one of the call alone, or a
  headless one followed by one non-headless one: the flag goes from true to false at most
  once. A non-headless invocation never starts another one, whatever its file size is.
\<close>

theorem escalation_at_most_once:
  "(entered (snd (snd (scrape_and_download env url bt t headless w))) = [headless] \<or>
    headless \<and> entered (snd (snd (scrape_and_download env url bt t headless w))) = [True, False])
   \<and> entered (snd (snd (scrape_and_download env url bt t False w'))) = [False]"
  using scrape_entered_False[of env url bt t w] scrape_entered_False[of env url bt t w']
    scrape_entered_True[of env url bt t w]
  by (cases headless) auto

theorem escalation_at_most_once_witness:
  "entered (snd (snd (scrape_and_download (always calm) sheet_url ''chromium'' 30 True empty_fs)))
     = [True, False] \<and>
   entered (snd (snd (scrape_and_download (always calm) sheet_url ''chromium'' 30 False empty_fs)))
     = [False]"
  using escalation_at_most_once[of "always calm" sheet_url "''chromium''" 30 True empty_fs empty_fs]
  by (simp add: calm_run_events)

subsection \<open>C7\<close>



subsection \<open>C8\<close>

text \<open>
  C8. Every pair the entry point returns, for every input and on every exit path, has its
  success flag true exactly when its failure reason is absent.
\<close>

theorem result_exclusive:
  assumes "scrape_and_download env url bt t headless w = (Returned (ok, reason), w', evs)"
  shows "ok = (reason = None)"
proof (cases headless)
  case False
  with assms show ?thesis using scrape_result_False by simp
next
  case True
  with assms show ?thesis
    by (auto simp: scrape_True error_result_def split: body_splits outcome.splits
        dest: body_return scrape_result_False)
qed

theorem result_exclusive_witness:
  "fst (scrape_and_download (always calm) sheet_url ''chromium'' 30 True empty_fs)
     = Returned (True, None) \<and>
   True = ((None :: string option) = None)"
proof -
  have run: "scrape_and_download (always calm) sheet_url ''chromium'' 30 True empty_fs
      = (Returned (True, None),
         fst (snd (scrape_and_download (always calm) sheet_url ''chromium'' 30 True empty_fs)),
         snd (snd (scrape_and_download (always calm) sheet_url ''chromium'' 30 True empty_fs)))"
    by (simp add: prod_eq_iff calm_run_result)
  show ?thesis
    using result_exclusive[OF run] calm_run_result by simp
qed

subsection \<open>C9\<close>

text \<open>
  C9, as the source has it. In the events of every call, a destination is opened for
  writing only after the await of the handler has returned a path in the same
  invocation. Whenever an invocation reaches the size test, that is the copy went through
  without a fault, the destination holds exactly the bytes of the captured file, the
  captured file still holds them, and the size tested is their number; and whenever the
  call reports success, the destination of the invocation that succeeded holds exactly
  the bytes of its download. The copy is a plain open and write: a write that faults
  leaves the truncated or partly written destination behind.
\<close>

theorem destination_written_after_capture:
  "(snd (snd (scrape_and_download env url bt t headless w)) = pre @ OpenWrite p # post \<longrightarrow>
      (\<exists>a q b. pre = a @ Captured q # b \<and> (\<forall>h. Enter h \<notin> set b))) \<and>
   (attempt_body e bc url' t' h dp w0 = (bound, Next n, w1, evs) \<longrightarrow>
      (\<exists>d. wait_for_event_out e = Returns d \<and>
           Captured (path_join dp (suggested_filename d)) \<in> set evs \<and>
           files w1 (path_join dp (suggested_filename d)) = Some (content d) \<and>
           files w1 (path_join (getcwd e) (basename (path_join dp (suggested_filename d))))
             = Some (content d) \<and>
           n = length (content d))) \<and>
   (fst (scrape_and_download env url bt t headless w) = Returned (True, None) \<longrightarrow>
      (\<exists>h d. wait_for_event_out (env h) = Returns d \<and>
           files (fst (snd (scrape_and_download env url bt t headless w)))
             (destination_of (env h) d) = Some (content d)))"
proof (intro conjI impI)
  assume evs: "snd (snd (scrape_and_download env url bt t headless w)) = pre @ OpenWrite p # post"
  have "snd (foldl write_step (False, True) (pre @ OpenWrite p # post))"
    using scrape_write[of env url bt t headless w] by (simp only: evs)
  from write_sound[OF this]
  show "\<exists>a q b. pre = a @ Captured q # b \<and> (\<forall>h. Enter h \<notin> set b)" by simp
next
  assume "attempt_body e bc url' t' h dp w0 = (bound, Next n, w1, evs)"
  then show "\<exists>d. wait_for_event_out e = Returns d \<and>
           Captured (path_join dp (suggested_filename d)) \<in> set evs \<and>
           files w1 (path_join dp (suggested_filename d)) = Some (content d) \<and>
           files w1 (path_join (getcwd e) (basename (path_join dp (suggested_filename d))))
             = Some (content d) \<and>
           n = length (content d)"
    by (rule body_materialized)
next
  assume ok: "fst (scrape_and_download env url bt t headless w) = Returned (True, None)"
  then have run: "scrape_and_download env url bt t headless w
      = (Returned (True, None), fst (snd (scrape_and_download env url bt t headless w)),
         snd (snd (scrape_and_download env url bt t headless w)))"
    by (simp add: prod_eq_iff)
  show "\<exists>h d. wait_for_event_out (env h) = Returns d \<and>
           files (fst (snd (scrape_and_download env url bt t headless w)))
             (destination_of (env h) d) = Some (content d)"
  proof (cases headless)
    case True
    then have h: "headless = True" by simp
    from scrape_success_True[OF run[unfolded h]] show ?thesis
      unfolding h .
  next
    case False
    then have h: "headless = False" by simp
    from scrape_success_False[OF run[unfolded h]] show ?thesis
      unfolding h by blast
  qed
qed

text \<open>At \<open>calm\<close>, for the non-headless invocation alone.\<close>

theorem destination_written_witness:
  "(\<exists>a q b.
      [Enter False, MakeDirs ''/work/downloads'', Launch Chromium False,
       NewContext, NewPage, Goto sheet_url,
       WaitForSelector ''#download-sheet'',
       WaitForSelector ''button#download-sheet'',
       WaitForSelector ''button:has-text(\"Download\")'',
       WaitForLoadState, CreateTask, Click (ElementHandle 3), WaitFor 30,
       Captured ''/work/downloads/bills.csv'',
       OpenRead ''/work/downloads/bills.csv''] = a @ Captured q # b \<and>
      (\<forall>h. Enter h \<notin> set b)) \<and>
   (\<exists>w1 evs1.
      attempt_body calm Chromium sheet_url 30 False ''/work/downloads''
        (empty_fs\<lparr>dirs := insert ''/work/downloads'' (dirs empty_fs)\<rparr>)
        = (True, Next 7, w1, evs1) \<and>
      Captured ''/work/downloads/bills.csv'' \<in> set evs1 \<and>
      files w1 ''/work/downloads/bills.csv'' = Some ''id,name'' \<and>
      files w1 ''/work/bills.csv'' = Some ''id,name'') \<and>
   fst (scrape_and_download (always calm) sheet_url ''chromium'' 30 False empty_fs)
     = Returned (True, None) \<and>
   files (fst (snd (scrape_and_download (always calm) sheet_url ''chromium'' 30 False empty_fs)))
     ''/work/bills.csv'' = Some ''id,name''"
proof -
  obtain w1 evs1 where body:
    "attempt_body calm Chromium sheet_url 30 False ''/work/downloads''
       (empty_fs\<lparr>dirs := insert ''/work/downloads'' (dirs empty_fs)\<rparr>)
     = (True, Next 7, w1, evs1)"
    using calm_body by blast
  have ev: "wait_for_event_out calm
      = Returns \<lparr>suggested_filename = ''bills.csv'', content = ''id,name''\<rparr>"
    by (simp add: calm_def)
  have run: "snd (snd (scrape_and_download (always calm) sheet_url ''chromium'' 30 False empty_fs)) =
      [Enter False, MakeDirs ''/work/downloads'', Launch Chromium False,
       NewContext, NewPage, Goto sheet_url,
       WaitForSelector ''#download-sheet'',
       WaitForSelector ''button#download-sheet'',
       WaitForSelector ''button:has-text(\"Download\")'',
       WaitForLoadState, CreateTask, Click (ElementHandle 3), WaitFor 30,
       Captured ''/work/downloads/bills.csv'',
       OpenRead ''/work/downloads/bills.csv'']
      @ OpenWrite ''/work/bills.csv'' # [Close False]"
    by (simp add: run_defs calm_def)
  have ok: "fst (scrape_and_download (always calm) sheet_url ''chromium'' 30 False empty_fs)
      = Returned (True, None)"
    by (simp add: run_defs calm_def)
  have dest: "destination_of calm \<lparr>suggested_filename = ''bills.csv'', content = ''id,name''\<rparr>
      = ''/work/bills.csv''"
    by (simp add: destination_of_def path_join_def basename_def calm_def)
  note inst = destination_written_after_capture[of "always calm" sheet_url "''chromium''" 30 False
        empty_fs _ "''/work/bills.csv''" "[Close False]" calm Chromium
        sheet_url 30 False "''/work/downloads''"
        "empty_fs\<lparr>dirs := insert ''/work/downloads'' (dirs empty_fs)\<rparr>" True 7 w1 evs1]
  have one: "\<exists>a q b.
      [Enter False, MakeDirs ''/work/downloads'', Launch Chromium False,
       NewContext, NewPage, Goto sheet_url,
       WaitForSelector ''#download-sheet'',
       WaitForSelector ''button#download-sheet'',
       WaitForSelector ''button:has-text(\"Download\")'',
       WaitForLoadState, CreateTask, Click (ElementHandle 3), WaitFor 30,
       Captured ''/work/downloads/bills.csv'',
       OpenRead ''/work/downloads/bills.csv''] = a @ Captured q # b \<and>
      (\<forall>h. Enter h \<notin> set b)"
    using inst run by blast
  have two: "Captured ''/work/downloads/bills.csv'' \<in> set evs1 \<and>
      files w1 ''/work/downloads/bills.csv'' = Some ''id,name'' \<and>
      files w1 ''/work/bills.csv'' = Some ''id,name''"
    using inst body ev by (simp add: path_join_def basename_def calm_def)
  have three: "files (fst (snd (scrape_and_download (always calm) sheet_url ''chromium'' 30 False empty_fs)))
     ''/work/bills.csv'' = Some ''id,name''"
    using inst ok ev dest by (auto simp: always_def)
  from one two three body ok show ?thesis by blast
qed

text \<open>The claim as the specification states it fails at \<open>disk_full\<close>: the captured file
  has seven bytes, the destination is opened and the write faults, the call returns a
  failure, and an empty destination file exists.\<close>

theorem destination_partial_counterexample:
  "fst (scrape_and_download (always disk_full) sheet_url ''chromium'' 30 False empty_fs)
     = Returned (False, Some ''Error: [Errno 28] No space left on device'') \<and>
   files (fst (snd (scrape_and_download (always disk_full) sheet_url ''chromium'' 30 False empty_fs)))
     ''/work/downloads/bills.csv'' = Some ''id,name'' \<and>
   files (fst (snd (scrape_and_download (always disk_full) sheet_url ''chromium'' 30 False empty_fs)))
     ''/work/bills.csv'' = Some []"
  by (simp add: run_defs disk_full_def calm_def)

subsection \<open>C10\<close>




end
